theory Spec2Isabelle
  imports
    Main
    "HOL-Library.Char_ord"
    "HOL-Library.List_Lexorder"
    "HOL-Library.Multiset"
    "HOL-Library.Sublist"
begin

section \<open>ssegen: the generator of cmd/ssegen/main.go\<close>

text \<open>
  Go strings are byte sequences: a \<^typ>\<open>string\<close> is the list of the bytes, and
  \<open>HOL-Library.Char_ord\<close> with \<open>HOL-Library.List_Lexorder\<close> order strings
  byte-wise and lexicographically, as Go's \<open><\<close> on strings does.
\<close>

subsection \<open>Data model (main.go, lines 21-55)\<close>

record Config =
  Input :: string
  Output :: string
  TypeName :: string
  Package :: string
  Lang :: string

record SSEEvent =
  Key :: string
  Event :: string
  Description :: string
  Deprecated :: bool

text \<open>
  A Go map has no order of its own: \<open>SSEEvents\<close> lists the entries of the map in the
  order in which the \<open>range\<close> statement of this run visits them. The keys of a map are
  distinct; the nil map of an absent section is the empty list.
\<close>

record OpenAPISpec_Components =
  SSEEvents :: "(string \<times> SSEEvent) list"

record OpenAPISpec =
  Components :: OpenAPISpec_Components

record TemplateData =
  td_Package :: string
  td_TypeName :: string
  td_Events :: "SSEEvent list"

definition Go :: string where
  "Go = ''go''"

definition TS :: string where
  "TS = ''ts''"

datatype error = Error string

fun message :: "error \<Rightarrow> string" where
  "message (Error m) = m"

subsection \<open>strings.TrimSpace and strings.Compare (Go standard library)\<close>

text \<open>
  \<open>strings.TrimSpace\<close> removes the leading and trailing white space of a string, as
  Unicode defines it. On the UTF-8 bytes these are the six ASCII characters and the
  encodings of U+0085, U+00A0, U+1680, U+2000 to U+200A, U+2028, U+2029, U+202F, U+205F
  and U+3000.
\<close>

definition spaceRunes :: "string list" where
  "spaceRunes =
     map (\<lambda>c. [c]) [CHR 0x09, CHR 0x0A, CHR 0x0B, CHR 0x0C, CHR 0x0D, CHR 0x20] @
     [[CHR 0xC2, CHR 0x85], [CHR 0xC2, CHR 0xA0], [CHR 0xE1, CHR 0x9A, CHR 0x80]] @
     map (\<lambda>c. [CHR 0xE2, CHR 0x80, c])
       [CHR 0x80, CHR 0x81, CHR 0x82, CHR 0x83, CHR 0x84, CHR 0x85, CHR 0x86, CHR 0x87,
        CHR 0x88, CHR 0x89, CHR 0x8A, CHR 0xA8, CHR 0xA9, CHR 0xAF] @
     [[CHR 0xE2, CHR 0x81, CHR 0x9F], [CHR 0xE3, CHR 0x80, CHR 0x80]]"

text \<open>The width in bytes of the white space at the front (at the end) of a string; 0 if none.\<close>

definition leadingSpace :: "string \<Rightarrow> nat" where
  "leadingSpace s = (case find (\<lambda>p. prefix p s) spaceRunes of None \<Rightarrow> 0 | Some p \<Rightarrow> length p)"

definition trailingSpace :: "string \<Rightarrow> nat" where
  "trailingSpace s = (case find (\<lambda>p. suffix p s) spaceRunes of None \<Rightarrow> 0 | Some p \<Rightarrow> length p)"

function TrimLeftSpace :: "string \<Rightarrow> string" where
  "TrimLeftSpace s = (if leadingSpace s = 0 then s else TrimLeftSpace (drop (leadingSpace s) s))"
  by pat_completeness auto
termination
proof (relation "measure length")
  fix s :: string
  assume "leadingSpace s \<noteq> 0"
  then obtain p where "find (\<lambda>p. prefix p s) spaceRunes = Some p" and "p \<noteq> []"
    by (auto simp: leadingSpace_def split: option.splits)
  then have "prefix p s"
    by (auto simp: find_Some_iff)
  with \<open>p \<noteq> []\<close> have "s \<noteq> []"
    by auto
  with \<open>leadingSpace s \<noteq> 0\<close> show "(drop (leadingSpace s) s, s) \<in> measure length"
    by simp
qed simp

function TrimRightSpace :: "string \<Rightarrow> string" where
  "TrimRightSpace s =
     (if trailingSpace s = 0 then s
      else TrimRightSpace (take (length s - trailingSpace s) s))"
  by pat_completeness auto
termination
proof (relation "measure length")
  fix s :: string
  assume "trailingSpace s \<noteq> 0"
  then obtain p where "find (\<lambda>p. suffix p s) spaceRunes = Some p" and "p \<noteq> []"
    by (auto simp: trailingSpace_def split: option.splits)
  then have "suffix p s"
    by (auto simp: find_Some_iff)
  with \<open>p \<noteq> []\<close> have "s \<noteq> []"
    by auto
  with \<open>trailingSpace s \<noteq> 0\<close> show "(take (length s - trailingSpace s) s, s) \<in> measure length"
    by simp
qed simp

definition TrimSpace :: "string \<Rightarrow> string" where
  "TrimSpace s = TrimRightSpace (TrimLeftSpace s)"

text \<open>\<open>strings.Compare\<close>: -1, 0 or +1 as \<open>a\<close> is below, equal to or above \<open>b\<close>.\<close>

definition Compare :: "string \<Rightarrow> string \<Rightarrow> int" where
  "Compare a b = (if a = b then 0 else if a < b then - 1 else 1)"

subsection \<open>strcase.ToCamel and strcase.ToLowerCamel\<close>

text \<open>
  Modelled from the spec: \<open>strcase.ToCamel\<close> and \<open>strcase.ToLowerCamel\<close>, functions
  of the module \<open>github.com/iancoleman/strcase\<close> that main.go imports and that is not
  among the sources of the repository. The specification, section 4.2, gives the rule in
  words: split the input on non-alphanumeric separators and internal case transitions and
  rejoin the fragments capitalized (the first one in lower case for the wire name), so that
  \<open>message_start\<close> becomes \<open>MessageStart\<close> and \<open>messageStart\<close> and the empty string
  stays empty. Where these words leave the result open (which characters separate, what
  happens to a run of capitals, to a digit, to a character that is neither) the definition
  follows the loop of the module itself, \<open>toCamelInitCase\<close> in camel.go of release 0.3.0:
  one pass over the bytes of the trimmed string with the flags \<open>capNext\<close> and
  \<open>prevIsCap\<close>. The table of acronyms of the module is empty unless
  \<open>ConfigureAcronym\<close> is called, which main.go never does, so \<open>hasAcronym\<close> is false.
\<close>

definition isCap :: "char \<Rightarrow> bool" where
  "isCap v \<longleftrightarrow> CHR ''A'' \<le> v \<and> v \<le> CHR ''Z''"

definition isLow :: "char \<Rightarrow> bool" where
  "isLow v \<longleftrightarrow> CHR ''a'' \<le> v \<and> v \<le> CHR ''z''"

definition isNum :: "char \<Rightarrow> bool" where
  "isNum v \<longleftrightarrow> CHR ''0'' \<le> v \<and> v \<le> CHR ''9''"

text \<open>\<open>v += 'A'; v -= 'a'\<close> and \<open>v += 'a'; v -= 'A'\<close> on a byte (\<open>char_of\<close> is modulo 256).\<close>

definition upperByte :: "char \<Rightarrow> char" where
  "upperByte v = char_of ((of_char v :: int) + of_char CHR ''A'' - of_char CHR ''a'')"

definition lowerByte :: "char \<Rightarrow> char" where
  "lowerByte v = char_of ((of_char v :: int) + of_char CHR ''a'' - of_char CHR ''A'')"

text \<open>
  The loop \<open>for i, v := range []byte(s)\<close>: the result is what the loop appends to the
  builder \<open>n\<close> from index \<open>i\<close> on.
\<close>

fun camelLoop :: "nat \<Rightarrow> bool \<Rightarrow> bool \<Rightarrow> string \<Rightarrow> string" where
  "camelLoop i capNext prevIsCap [] = []"
| "camelLoop i capNext prevIsCap (v # vs) =
     (let vIsCap = isCap v;
          vIsLow = isLow v;
          v' = (if capNext then (if vIsLow then upperByte v else v)
                else if i = 0 then (if vIsCap then lowerByte v else v)
                else if prevIsCap \<and> vIsCap then lowerByte v
                else v)
      in if vIsCap \<or> vIsLow then v' # camelLoop (Suc i) False vIsCap vs
         else if isNum v then v' # camelLoop (Suc i) True vIsCap vs
         else camelLoop (Suc i)
                (v = CHR ''_'' \<or> v = CHR '' '' \<or> v = CHR ''-'' \<or> v = CHR ''.'') vIsCap vs)"

definition toCamelInitCase :: "string \<Rightarrow> bool \<Rightarrow> string" where
  "toCamelInitCase s initCase =
     (let s' = TrimSpace s in if s' = [] then s' else camelLoop 0 initCase False s')"

definition ToCamel :: "string \<Rightarrow> string" where
  "ToCamel s = toCamelInitCase s True"

definition ToLowerCamel :: "string \<Rightarrow> string" where
  "ToLowerCamel s = toCamelInitCase s False"

subsection \<open>slices.SortFunc (Go standard library)\<close>

text \<open>
  \<open>slices.SortFunc\<close> calls \<open>pdqsortCmpFunc\<close>, which sorts a slice of at most 12
  elements by \<open>insertionSortCmpFunc\<close> and returns. The inner loop of the insertion sort
  moves \<open>data[i]\<close> to the left while it compares below its left neighbour: \<open>insertLeft\<close>
  takes the sorted part from right to left.
\<close>

fun insertLeft :: "('a \<Rightarrow> 'a \<Rightarrow> int) \<Rightarrow> 'a \<Rightarrow> 'a list \<Rightarrow> 'a list" where
  "insertLeft cmp x [] = [x]"
| "insertLeft cmp x (p # ps) = (if cmp x p < 0 then p # insertLeft cmp x ps else x # p # ps)"

definition insertionSortCmpFunc :: "('a \<Rightarrow> 'a \<Rightarrow> int) \<Rightarrow> 'a list \<Rightarrow> 'a list" where
  "insertionSortCmpFunc cmp data = rev (foldl (\<lambda>ps x. insertLeft cmp x ps) [] data)"

text \<open>
  On a longer slice \<open>pdqsortCmpFunc\<close> runs a pattern-defeating quicksort, which is not
  modelled: \<open>pdq\<close> stands for it, and a theorem that depends on it assumes \<open>sortsByKey\<close>,
  that it returns a permutation of its argument in ascending order of the keys.
\<close>

definition SortFunc ::
  "(('a \<Rightarrow> 'a \<Rightarrow> int) \<Rightarrow> 'a list \<Rightarrow> 'a list) \<Rightarrow> 'a list \<Rightarrow> ('a \<Rightarrow> 'a \<Rightarrow> int) \<Rightarrow> 'a list" where
  "SortFunc pdq x cmp = (if length x \<le> 12 then insertionSortCmpFunc cmp x else pdq cmp x)"

text \<open>The comparison function of getEvents (lines 119-121).\<close>

definition cmpKey :: "SSEEvent \<Rightarrow> SSEEvent \<Rightarrow> int" where
  "cmpKey a b = Compare (Key a) (Key b)"

definition sortsByKey ::
  "((SSEEvent \<Rightarrow> SSEEvent \<Rightarrow> int) \<Rightarrow> SSEEvent list \<Rightarrow> SSEEvent list) \<Rightarrow> bool" where
  "sortsByKey pdq \<longleftrightarrow>
     (\<forall>xs. mset (pdq cmpKey xs) = mset xs \<and> sorted (map Key (pdq cmpKey xs)))"

subsection \<open>The input document and yaml.Unmarshal\<close>

text \<open>
  What the YAML document gives at \<open>components.x-sse-events\<close>: nothing, or a mapping from
  event identifiers to descriptors, each field of a descriptor present or not. The fields
  are those of the struct tags of \<open>SSEEvent\<close>. The mapping is listed in the order in which
  the \<open>range\<close> statement of this run will visit the map built from it.
\<close>

record YAMLEvent =
  yaml_key :: "string option"
  yaml_event :: "string option"
  yaml_description :: "string option"
  yaml_deprecated :: "bool option"

record YAMLDocument =
  x_sse_events :: "(string \<times> YAMLEvent) list option"

text \<open>
  \<open>var spec OpenAPISpec\<close> is the zero value, and \<open>yaml.Unmarshal\<close> sets the fields the
  document gives: a field that is absent keeps \<open>""\<close>, \<open>false\<close> or the nil map.
\<close>

definition decodeEvent :: "YAMLEvent \<Rightarrow> SSEEvent" where
  "decodeEvent y =
     \<lparr>Key = (case yaml_key y of None \<Rightarrow> [] | Some v \<Rightarrow> v),
      Event = (case yaml_event y of None \<Rightarrow> [] | Some v \<Rightarrow> v),
      Description = (case yaml_description y of None \<Rightarrow> [] | Some v \<Rightarrow> v),
      Deprecated = (case yaml_deprecated y of None \<Rightarrow> False | Some v \<Rightarrow> v)\<rparr>"

definition decodeSpec :: "YAMLDocument \<Rightarrow> OpenAPISpec" where
  "decodeSpec doc =
     \<lparr>Components = \<lparr>SSEEvents =
        (case x_sse_events doc of None \<Rightarrow> []
         | Some kvs \<Rightarrow> map (\<lambda>(k, y). (k, decodeEvent y)) kvs)\<rparr>\<rparr>"

subsection \<open>The world outside main.go\<close>

datatype template = Template string string

text \<open>
  The operating system, the YAML parser, the embedded template files, the template engine
  and the Go formatter are parameters of the model: each field is what the call returns in
  this run, an error as \<open>Inl\<close> (or \<open>Some\<close> where the call returns an error only).
\<close>

record world =
  os_ReadFile :: "string \<Rightarrow> error + string"
  yaml_parse :: "string \<Rightarrow> error + YAMLDocument"
  slices_pdqsort :: "(SSEEvent \<Rightarrow> SSEEvent \<Rightarrow> int) \<Rightarrow> SSEEvent list \<Rightarrow> SSEEvent list"
  embeddedTemplates_ReadFile :: "string \<Rightarrow> error + string"
  template_Parse :: "string \<Rightarrow> string \<Rightarrow> error + template"
  template_Execute :: "template \<Rightarrow> TemplateData \<Rightarrow> error + string"
  format_Source :: "string \<Rightarrow> error + string"
  filepath_Dir :: "string \<Rightarrow> string"
  os_MkdirAll :: "string \<Rightarrow> error option"
  os_WriteFile :: "string \<Rightarrow> string \<Rightarrow> error option"

definition yaml_Unmarshal :: "world \<Rightarrow> string \<Rightarrow> error + OpenAPISpec" where
  "yaml_Unmarshal w data =
     (case yaml_parse w data of Inl err \<Rightarrow> Inl err | Inr doc \<Rightarrow> Inr (decodeSpec doc))"

text \<open>\<open>fmt.Errorf("<context>: %w", err)\<close> and \<open>fmt.Errorf("<context>: %v", err)\<close>.\<close>

definition Errorf :: "string \<Rightarrow> error \<Rightarrow> error" where
  "Errorf context err = Error (context @ '': '' @ message err)"

subsection \<open>getEvents (lines 101-124)\<close>

text \<open>The loop of lines 113-117 over the entries of the map, appending to \<open>events\<close>.\<close>

fun rangeEvents :: "(string \<times> SSEEvent) list \<Rightarrow> SSEEvent list \<Rightarrow> SSEEvent list" where
  "rangeEvents [] events = events"
| "rangeEvents ((key, event) # rest) events =
     rangeEvents rest
       (events @ [event\<lparr>Key := ToCamel key, Event := ToLowerCamel (Event event)\<rparr>])"

definition getEvents :: "world \<Rightarrow> string \<Rightarrow> error + SSEEvent list" where
  "getEvents w inputFile =
     (case os_ReadFile w inputFile of
        Inl err \<Rightarrow> Inl (Errorf ''error reading file'' err)
      | Inr data \<Rightarrow>
          (case yaml_Unmarshal w data of
             Inl err \<Rightarrow> Inl (Errorf ''error parsing YAML'' err)
           | Inr spec \<Rightarrow>
               Inr (SortFunc (slices_pdqsort w)
                      (rangeEvents (SSEEvents (Components spec)) []) cmpKey)))"

subsection \<open>generateCode (lines 154-195)\<close>

definition generateCode :: "world \<Rightarrow> TemplateData \<Rightarrow> Config \<Rightarrow> error + string" where
  "generateCode w tmplData config =
     (if Lang config = Go then
        (case embeddedTemplates_ReadFile w ''templates/go.tmpl'' of
           Inl err \<Rightarrow> Inl (Errorf ''error reading template'' err)
         | Inr tmplContent \<Rightarrow>
             (case template_Parse w ''go.tmpl'' tmplContent of
                Inl err \<Rightarrow> Inl (Errorf ''error parsing template'' err)
              | Inr tmpl \<Rightarrow>
                  (case template_Execute w tmpl tmplData of
                     Inl err \<Rightarrow> Inl (Errorf ''error executing template'' err)
                   | Inr generated \<Rightarrow> format_Source w generated)))
      else if Lang config = TS then
        (case embeddedTemplates_ReadFile w ''templates/ts.tmpl'' of
           Inl err \<Rightarrow> Inl (Errorf ''error reading template'' err)
         | Inr tmplContent \<Rightarrow>
             (case template_Parse w ''ts.tmpl'' tmplContent of
                Inl err \<Rightarrow> Inl (Errorf ''error parsing template'' err)
              | Inr tmpl \<Rightarrow>
                  (case template_Execute w tmpl tmplData of
                     Inl err \<Rightarrow> Inl (Errorf ''error executing template'' err)
                   | Inr generated \<Rightarrow> Inr generated)))
      else Inl (Error (''unsupported language: '' @ Lang config)))"

subsection \<open>generateSSEEvents (lines 126-152)\<close>

text \<open>
  Effects of a run, in order: the file operations it attempts and what it prints. A failed
  operation is in the list too, since it was attempted. \<open>IO_Usage\<close> is a call of the
  function that line 80 assigns to \<open>flag.Usage\<close>.
\<close>

datatype io =
    IO_ReadFile string
  | IO_MkdirAll string
  | IO_WriteFile string string
  | IO_Usage
  | IO_Stderr string
  | IO_Stdout string

definition generateSSEEvents :: "world \<Rightarrow> Config \<Rightarrow> io list \<times> error option" where
  "generateSSEEvents w config =
     (case getEvents w (Input config) of
        Inl err \<Rightarrow> ([IO_ReadFile (Input config)], Some (Errorf ''error getting events'' err))
      | Inr events \<Rightarrow>
          (case generateCode w
                  \<lparr>td_Package = Package config, td_TypeName = TypeName config,
                   td_Events = events\<rparr> config of
             Inl err \<Rightarrow>
               ([IO_ReadFile (Input config)], Some (Errorf ''error generating code'' err))
           | Inr generated \<Rightarrow>
               (case os_MkdirAll w (filepath_Dir w (Output config)) of
                  Some err \<Rightarrow>
                    ([IO_ReadFile (Input config), IO_MkdirAll (filepath_Dir w (Output config))],
                     Some (Errorf ''error creating directory'' err))
                | None \<Rightarrow>
                    (case os_WriteFile w (Output config) generated of
                       Some err \<Rightarrow>
                         ([IO_ReadFile (Input config),
                           IO_MkdirAll (filepath_Dir w (Output config)),
                           IO_WriteFile (Output config) generated],
                          Some (Errorf ''error writing file'' err))
                     | None \<Rightarrow>
                         ([IO_ReadFile (Input config),
                           IO_MkdirAll (filepath_Dir w (Output config)),
                           IO_WriteFile (Output config) generated],
                          None)))))"

subsection \<open>parseFlags and main (lines 57-99)\<close>

text \<open>
  \<open>flag.Parse\<close> (line 86) reads the arguments of the command line, \<open>os.Args[1:]\<close>, with
  the flag set \<open>flag.CommandLine\<close> of the Go standard library, whose error handling is
  \<open>ExitOnError\<close>. The five flags of lines 74-78 are string flags.
\<close>

definition formal :: "string list" where
  "formal = [''i'', ''o'', ''lang'', ''type'', ''package'']"

text \<open>
  The name of a flag and, if the argument has the form \<open>name=value\<close>, its value: the
  first \<open>=\<close> after the first character separates them.
\<close>

fun splitFlag :: "string \<Rightarrow> string \<times> string option" where
  "splitFlag [] = ([], None)"
| "splitFlag (c # cs) =
     (c # takeWhile (\<lambda>x. x \<noteq> CHR ''='') cs,
      case dropWhile (\<lambda>x. x \<noteq> CHR ''='') cs of [] \<Rightarrow> None | e # v \<Rightarrow> Some v)"

text \<open>
  The errors of \<open>FlagSet.parseOne\<close>: \<open>flag.ErrHelp\<close> for \<open>-h\<close> and \<open>-help\<close>, and
  the error that \<open>FlagSet.failf\<close> makes of a message, after it has printed the message
  and the usage text.
\<close>

datatype flag_error = ErrHelp | ErrFlag string

definition failf :: "string \<Rightarrow> io list \<times> flag_error" where
  "failf msg = ([IO_Stderr (msg @ [CHR 0x0A]), IO_Usage], ErrFlag msg)"

text \<open>
  \<open>FlagSet.parseOne\<close> on the arguments that are left. \<open>Inr None\<close>: the arguments are
  used up, or the first one is not a flag (shorter than two bytes, or not starting with
  \<open>-\<close>), or it is \<open>--\<close>. \<open>Inr (Some (name, value, args'))\<close>: the flag \<open>name\<close> was set
  to \<open>value\<close> and \<open>args'\<close> are left. \<open>Inl\<close>: what was printed, and the error.
\<close>

fun parseOne :: "string list \<Rightarrow> (io list \<times> flag_error) + (string \<times> string \<times> string list) option" where
  "parseOne [] = Inr None"
| "parseOne (s # args) =
     (if length s < 2 \<or> hd s \<noteq> CHR ''-'' then Inr None
      else if s = ''--'' then Inr None
      else
        (let numMinuses = (if s ! 1 = CHR ''-'' then 2 else 1 :: nat);
             name = drop numMinuses s
         in if name = [] \<or> hd name = CHR ''-'' \<or> hd name = CHR ''=''
            then Inl (failf (''bad flag syntax: '' @ s))
            else
              (let (name, given) = splitFlag name
               in if name \<notin> set formal
                  then (if name = ''help'' \<or> name = ''h'' then Inl ([IO_Usage], ErrHelp)
                        else Inl (failf (''flag provided but not defined: -'' @ name)))
                  else
                    (case given of
                       Some value \<Rightarrow> Inr (Some (name, value, args))
                     | None \<Rightarrow>
                         (case args of
                            [] \<Rightarrow> Inl (failf (''flag needs an argument: -'' @ name))
                          | value # args' \<Rightarrow> Inr (Some (name, value, args')))))))"

text \<open>
  The loop of \<open>FlagSet.Parse\<close>, with the error handling \<open>ExitOnError\<close>: \<open>actual\<close> holds
  the value set for each flag seen so far; \<open>Inl\<close> is \<open>os.Exit(0)\<close> after \<open>ErrHelp\<close> and
  \<open>os.Exit(2)\<close> after another error, with what was printed before; \<open>Inr\<close> is the
  return of \<open>flag.Parse\<close>.
\<close>

function flag_Parse ::
  "(string \<rightharpoonup> string) \<Rightarrow> string list \<Rightarrow> (io list \<times> nat) + (string \<rightharpoonup> string)" where
  "flag_Parse actual args =
     (case parseOne args of
        Inr (Some (name, value, args')) \<Rightarrow> flag_Parse (actual(name \<mapsto> value)) args'
      | Inr None \<Rightarrow> Inr actual
      | Inl (printed, err) \<Rightarrow> Inl (printed, if err = ErrHelp then 0 else 2))"
  by pat_completeness auto
termination
proof (relation "measure (\<lambda>(actual, args). length args)", goal_cases)
  case 1
  show ?case by simp
next
  case (2 actual args seen rest name tail "value" args')
  then have "parseOne args = Inr (Some (name, value, args'))"
    by simp
  then have "length args' < length args"
    by (cases args)
      (auto simp: Let_def split: if_splits prod.splits option.splits list.splits)
  then show ?case
    by simp
qed

declare flag_Parse.simps [simp del]

text \<open>A flag that was not set keeps the default of its \<open>flag.StringVar\<close>.\<close>

definition flagValue :: "(string \<rightharpoonup> string) \<Rightarrow> string \<Rightarrow> string \<Rightarrow> string" where
  "flagValue actual name dflt = (case actual name of None \<Rightarrow> dflt | Some v \<Rightarrow> v)"

text \<open>
  \<open>Inl\<close> is an exit of the process inside parseFlags, by \<open>flag.Parse\<close> or by
  \<open>flag.Usage(); os.Exit(1)\<close> of lines 88-96: what was printed and the exit status.
\<close>

definition parseFlags :: "string list \<Rightarrow> (io list \<times> nat) + Config" where
  "parseFlags args =
     (case flag_Parse Map.empty args of
        Inl exit \<Rightarrow> Inl exit
      | Inr actual \<Rightarrow>
          (let config =
             \<lparr>Input = flagValue actual ''i'' [],
              Output = flagValue actual ''o'' [],
              TypeName = flagValue actual ''type'' ''SSEEvent'',
              Package = flagValue actual ''package'' ''events'',
              Lang = flagValue actual ''lang'' []\<rparr>
           in if Input config = [] \<or> Output config = [] \<or> Lang config = []
              then Inl ([IO_Usage], 1)
              else if Lang config \<noteq> Go \<and> Lang config \<noteq> TS
              then Inl ([IO_Usage], 1)
              else Inr config))"

text \<open>The run of the program: what it did to the outside and its exit status.\<close>

definition main :: "world \<Rightarrow> string list \<Rightarrow> io list \<times> nat" where
  "main w args =
     (case parseFlags args of
        Inl exit \<Rightarrow> exit
      | Inr config \<Rightarrow>
          (case generateSSEEvents w config of
             (ios, Some err) \<Rightarrow> (ios @ [IO_Stderr (''Error: '' @ message err @ [CHR 0x0A])], 1)
           | (ios, None) \<Rightarrow>
               (ios @ [IO_Stdout (''Successfully generated '' @ Lang config @ '' enum in '' @
                                  Output config @ [CHR 0x0A])], 0)))"

text \<open>The file operations among the effects of a run.\<close>

fun isFileIO :: "io \<Rightarrow> bool" where
  "isFileIO (IO_ReadFile _) = True"
| "isFileIO (IO_MkdirAll _) = True"
| "isFileIO (IO_WriteFile _ _) = True"
| "isFileIO _ = False"

fun isWrite :: "io \<Rightarrow> bool" where
  "isWrite (IO_WriteFile _ _) = True"
| "isWrite _ = False"

subsection \<open>Example inputs\<close>

text \<open>
  The two descriptors of the round-trip scenario of the specification, section 8:
  \<open>message_start: {event: message_start, description: "start"}\<close> and
  \<open>message_end: {event: message_end, deprecated: true}\<close>.
\<close>

definition scenarioStart :: "string \<times> YAMLEvent" where
  "scenarioStart =
     (''message_start'',
      \<lparr>yaml_key = None, yaml_event = Some ''message_start'',
       yaml_description = Some ''start'', yaml_deprecated = None\<rparr>)"

definition scenarioEnd :: "string \<times> YAMLEvent" where
  "scenarioEnd =
     (''message_end'',
      \<lparr>yaml_key = None, yaml_event = Some ''message_end'',
       yaml_description = None, yaml_deprecated = Some True\<rparr>)"

text \<open>
  The two identifiers of the open question of the specification, section 9, which differ
  in the separator only: \<open>Message-Start: {event: x}\<close> and \<open>MessageStart: {event: y}\<close>.
  Then an identifier whose descriptor has no \<open>event\<close> field.
\<close>

definition hyphenated :: "string \<times> YAMLEvent" where
  "hyphenated =
     (''Message-Start'',
      \<lparr>yaml_key = None, yaml_event = Some ''x'', yaml_description = None,
       yaml_deprecated = None\<rparr>)"

definition joined :: "string \<times> YAMLEvent" where
  "joined =
     (''MessageStart'',
      \<lparr>yaml_key = None, yaml_event = Some ''y'', yaml_description = None,
       yaml_deprecated = None\<rparr>)"

definition eventless :: "string \<times> YAMLEvent" where
  "eventless =
     (''ping'',
      \<lparr>yaml_key = None, yaml_event = None, yaml_description = Some ''keep-alive'',
       yaml_deprecated = None\<rparr>)"

text \<open>
  A world in which every call succeeds: the input file parses to the entries \<open>kvs\<close>
  (or to a document without the section), a template renders the keys and the wire names
  of the events it is given, and the formatter returns its argument.
\<close>

definition renderEvents :: "template \<Rightarrow> TemplateData \<Rightarrow> string" where
  "renderEvents tmpl d =
     td_TypeName d @ concat (map (\<lambda>e. '' '' @ Key e @ ''='' @ Event e) (td_Events d))"

definition quietWorld :: "(string \<times> YAMLEvent) list option \<Rightarrow> world" where
  "quietWorld section =
     \<lparr>os_ReadFile = (\<lambda>name. Inr ''components: ...''),
      yaml_parse = (\<lambda>data. Inr \<lparr>x_sse_events = section\<rparr>),
      slices_pdqsort = insertionSortCmpFunc,
      embeddedTemplates_ReadFile = (\<lambda>name. Inr name),
      template_Parse = (\<lambda>name content. Inr (Template name content)),
      template_Execute = (\<lambda>tmpl d. Inr (renderEvents tmpl d)),
      format_Source = (\<lambda>src. Inr src),
      filepath_Dir = (\<lambda>path. ''.''),
      os_MkdirAll = (\<lambda>path. None),
      os_WriteFile = (\<lambda>path content. None)\<rparr>"

text \<open>A command line that sets the three required flags.\<close>

definition commandLine :: "string \<Rightarrow> string list" where
  "commandLine lang = [''-i'', ''api.yaml'', ''-o'', ''events.out'', ''-lang'', lang]"

subsection \<open>Strings that the conversions leave alone\<close>

text \<open>
  A string is \<open>settled\<close> when it has no two capital letters side by side and no
  lowercase letter directly after a digit.
\<close>

fun settled :: "string \<Rightarrow> bool" where
  "settled (a # b # cs) \<longleftrightarrow>
     \<not> (isCap a \<and> isCap b) \<and> \<not> (isNum a \<and> isLow b) \<and> settled (b # cs)"
| "settled cs \<longleftrightarrow> True"

fun startsWith :: "(char \<Rightarrow> bool) \<Rightarrow> string \<Rightarrow> bool" where
  "startsWith P [] \<longleftrightarrow> False"
| "startsWith P (a # cs) \<longleftrightarrow> P a"

section \<open>Properties\<close>

subsection \<open>The sort and the loop of getEvents\<close>

lemma cmpKey_less: "cmpKey x p < 0 \<longleftrightarrow> Key x < Key p"
  by (simp add: cmpKey_def Compare_def)

lemma mset_insertLeft: "mset (insertLeft cmp x ps) = add_mset x (mset ps)"
  by (induction ps) auto

lemma set_insertLeft: "set (insertLeft cmp x ps) = insert x (set ps)"
  by (induction ps) auto

text \<open>The part already sorted is read from right to left, so it is descending.\<close>

lemma descending_insertLeft:
  "sorted (rev (map Key ps)) \<Longrightarrow> sorted (rev (map Key (insertLeft cmpKey x ps)))"
  by (induction ps) (auto simp: cmpKey_less sorted_append set_insertLeft)

lemma foldl_insertLeft:
  "sorted (rev (map Key acc)) \<Longrightarrow>
   mset (foldl (\<lambda>ps x. insertLeft cmpKey x ps) acc xs) = mset acc + mset xs \<and>
   sorted (rev (map Key (foldl (\<lambda>ps x. insertLeft cmpKey x ps) acc xs)))"
  by (induction xs arbitrary: acc) (simp_all add: mset_insertLeft descending_insertLeft)

lemma mset_insertionSortCmpFunc: "mset (insertionSortCmpFunc cmpKey xs) = mset xs"
  using foldl_insertLeft [of "[]" xs] by (simp add: insertionSortCmpFunc_def)

lemma sorted_insertionSortCmpFunc: "sorted (map Key (insertionSortCmpFunc cmpKey xs))"
  using foldl_insertLeft [of "[]" xs] by (simp add: insertionSortCmpFunc_def rev_map)

lemma sortsByKey_insertionSort: "sortsByKey insertionSortCmpFunc"
  by (simp add: sortsByKey_def mset_insertionSortCmpFunc sorted_insertionSortCmpFunc)

lemma mset_SortFunc: "sortsByKey pdq \<Longrightarrow> mset (SortFunc pdq xs cmpKey) = mset xs"
  by (simp add: SortFunc_def sortsByKey_def mset_insertionSortCmpFunc)

lemma sorted_SortFunc: "sortsByKey pdq \<Longrightarrow> sorted (map Key (SortFunc pdq xs cmpKey))"
  by (simp add: SortFunc_def sortsByKey_def sorted_insertionSortCmpFunc)

lemma rangeEvents_map:
  "rangeEvents kvs events =
   events @
   map (\<lambda>(key, event). event\<lparr>Key := ToCamel key, Event := ToLowerCamel (Event event)\<rparr>) kvs"
  by (induction kvs events rule: rangeEvents.induct) simp_all

lemma Key_rangeEvents: "map Key (rangeEvents kvs []) = map (ToCamel \<circ> fst) kvs"
  by (simp add: rangeEvents_map split_def comp_def)

lemma getEvents_parsed:
  assumes "os_ReadFile w inputFile = Inr data" and "yaml_Unmarshal w data = Inr spec"
  shows "getEvents w inputFile =
         Inr (SortFunc (slices_pdqsort w) (rangeEvents (SSEEvents (Components spec)) []) cmpKey)"
  using assms by (simp add: getEvents_def)

lemma quietWorld_reads: "os_ReadFile (quietWorld section) name = Inr ''components: ...''"
  by (simp add: quietWorld_def)

lemma quietWorld_parses:
  "yaml_Unmarshal (quietWorld section) data = Inr (decodeSpec \<lparr>x_sse_events = section\<rparr>)"
  by (simp add: quietWorld_def yaml_Unmarshal_def)

lemma quietWorld_sorts: "sortsByKey (slices_pdqsort (quietWorld section))"
  by (simp add: quietWorld_def sortsByKey_insertionSort)

subsection \<open>The conversions on the examples of the module and of the specification\<close>

lemma ToCamel_examples:
  "ToCamel ''message_start'' = ''MessageStart''"
  "ToCamel ''test_case'' = ''TestCase''"
  "ToCamel ''test.case'' = ''TestCase''"
  "ToCamel ''TestCase'' = ''TestCase''"
  "ToCamel '' test  case '' = ''TestCase''"
  "ToCamel [] = []"
  "ToCamel ''AnyKind of_string'' = ''AnyKindOfString''"
  "ToCamel ''odd-fix'' = ''OddFix''"
  "ToCamel ''numbers2And55with000'' = ''Numbers2And55With000''"
  "ToCamel ''ID'' = ''Id''"
  "ToCamel ''CONSTANT_CASE'' = ''ConstantCase''"
  by code_simp+

lemma ToLowerCamel_examples:
  "ToLowerCamel ''message_start'' = ''messageStart''"
  "ToLowerCamel ''foo-bar'' = ''fooBar''"
  "ToLowerCamel ''TestCase'' = ''testCase''"
  "ToLowerCamel ''AnyKind.of-string'' = ''anyKindOfString''"
  "ToLowerCamel ''ID'' = ''id''"
  "ToLowerCamel '' some string'' = ''someString''"
  "ToLowerCamel ''CONSTANT_CASE'' = ''constantCase''"
  by code_simp+

text \<open>A no-break space (U+00A0) and an en quad (U+2000) are trimmed like a blank.\<close>

lemma TrimSpace_examples:
  "TrimSpace ([CHR 0xC2, CHR 0xA0] @ ''a b'' @ [CHR 0xE2, CHR 0x80, CHR 0x80, CHR 0x20]) = ''a b''"
  "TrimSpace ''   '' = []"
  by code_simp+

lemma ToLowerCamel_empty: "ToLowerCamel [] = []"
  by code_simp

subsection \<open>The event list\<close>

text \<open>
  C1. Whenever the input file is read and parsed, getEvents returns a list that is
  ascending in the normalized key, byte-wise and lexicographically, and that holds the
  normalized descriptor of each entry of the mapping once: as many elements as the mapping
  has keys.
\<close>

theorem getEvents_sorted_one_per_key:
  assumes "os_ReadFile w inputFile = Inr data"
    and "yaml_Unmarshal w data = Inr spec"
    and "distinct (map fst (SSEEvents (Components spec)))"
    and "sortsByKey (slices_pdqsort w)"
  shows "\<exists>events. getEvents w inputFile = Inr events \<and>
           sorted (map Key events) \<and>
           mset events =
             image_mset
               (\<lambda>(key, event). event\<lparr>Key := ToCamel key, Event := ToLowerCamel (Event event)\<rparr>)
               (mset (SSEEvents (Components spec))) \<and>
           length events = card (fst ` set (SSEEvents (Components spec)))"
proof -
  let ?m = "SSEEvents (Components spec)"
  let ?events = "SortFunc (slices_pdqsort w) (rangeEvents ?m []) cmpKey"
  have result: "getEvents w inputFile = Inr ?events"
    using assms(1,2) by (rule getEvents_parsed)
  have ascending: "sorted (map Key ?events)"
    using assms(4) by (rule sorted_SortFunc)
  have entries: "mset ?events = mset (rangeEvents ?m [])"
    using assms(4) by (rule mset_SortFunc)
  have "length ?events = size (mset ?events)"
    by simp
  also have "\<dots> = length (rangeEvents ?m [])"
    by (simp only: entries size_mset)
  also have "\<dots> = length ?m"
    by (simp add: rangeEvents_map)
  also have "\<dots> = card (fst ` set ?m)"
    using distinct_card [OF assms(3)] by simp
  finally have count: "length ?events = card (fst ` set ?m)" .
  have "mset ?events = image_mset
               (\<lambda>(key, event). event\<lparr>Key := ToCamel key, Event := ToLowerCamel (Event event)\<rparr>)
               (mset ?m)"
    unfolding entries by (simp add: rangeEvents_map)
  with result ascending count show ?thesis
    by blast
qed

theorem getEvents_sorted_one_per_key_witness:
  "distinct (map fst (SSEEvents (Components (decodeSpec \<lparr>x_sse_events = Some [scenarioStart, scenarioEnd]\<rparr>)))) \<and>
   (\<exists>events. getEvents (quietWorld (Some [scenarioStart, scenarioEnd])) ''api.yaml'' = Inr events \<and>
      sorted (map Key events) \<and> length events = 2)"
proof -
  have keys: "distinct (map fst (SSEEvents (Components
      (decodeSpec \<lparr>x_sse_events = Some [scenarioStart, scenarioEnd]\<rparr>))))"
    by (simp add: decodeSpec_def scenarioStart_def scenarioEnd_def)
  have two: "card (fst ` set (SSEEvents (Components
      (decodeSpec \<lparr>x_sse_events = Some [scenarioStart, scenarioEnd]\<rparr>)))) = 2"
    by (simp add: decodeSpec_def scenarioStart_def scenarioEnd_def)
  show ?thesis
    using getEvents_sorted_one_per_key [OF quietWorld_reads quietWorld_parses keys quietWorld_sorts,
        of "''api.yaml''"] keys two
    by auto
qed

text \<open>
  C2. The mapping of the round-trip scenario, whichever of its two entries the loop visits
  first, gives the list of MessageEnd and MessageStart, in this order.
\<close>

theorem getEvents_round_trip:
  assumes "os_ReadFile w inputFile = Inr data"
    and "yaml_parse w data = Inr \<lparr>x_sse_events = Some kvs\<rparr>"
    and "kvs = [scenarioStart, scenarioEnd] \<or> kvs = [scenarioEnd, scenarioStart]"
  shows "getEvents w inputFile =
         Inr [\<lparr>Key = ''MessageEnd'', Event = ''messageEnd'', Description = [],
               Deprecated = True\<rparr>,
              \<lparr>Key = ''MessageStart'', Event = ''messageStart'', Description = ''start'',
               Deprecated = False\<rparr>]"
proof -
  have forwards: "SortFunc pdq (rangeEvents (SSEEvents (Components
      (decodeSpec \<lparr>x_sse_events = Some [scenarioStart, scenarioEnd]\<rparr>))) []) cmpKey =
    [\<lparr>Key = ''MessageEnd'', Event = ''messageEnd'', Description = [], Deprecated = True\<rparr>,
     \<lparr>Key = ''MessageStart'', Event = ''messageStart'', Description = ''start'',
      Deprecated = False\<rparr>]" for pdq
    by code_simp
  have backwards: "SortFunc pdq (rangeEvents (SSEEvents (Components
      (decodeSpec \<lparr>x_sse_events = Some [scenarioEnd, scenarioStart]\<rparr>))) []) cmpKey =
    [\<lparr>Key = ''MessageEnd'', Event = ''messageEnd'', Description = [], Deprecated = True\<rparr>,
     \<lparr>Key = ''MessageStart'', Event = ''messageStart'', Description = ''start'',
      Deprecated = False\<rparr>]" for pdq
    by code_simp
  have "yaml_Unmarshal w data = Inr (decodeSpec \<lparr>x_sse_events = Some kvs\<rparr>)"
    using assms(2) by (simp add: yaml_Unmarshal_def)
  with assms(1) have "getEvents w inputFile =
      Inr (SortFunc (slices_pdqsort w) (rangeEvents (SSEEvents (Components
        (decodeSpec \<lparr>x_sse_events = Some kvs\<rparr>))) []) cmpKey)"
    by (rule getEvents_parsed)
  with assms(3) forwards backwards show ?thesis
    by auto
qed

theorem getEvents_round_trip_witness:
  "getEvents (quietWorld (Some [scenarioEnd, scenarioStart])) ''api.yaml'' =
   Inr [\<lparr>Key = ''MessageEnd'', Event = ''messageEnd'', Description = [],
         Deprecated = True\<rparr>,
        \<lparr>Key = ''MessageStart'', Event = ''messageStart'', Description = ''start'',
         Deprecated = False\<rparr>]"
  using getEvents_round_trip [of "quietWorld (Some [scenarioEnd, scenarioStart])" "''api.yaml''"
      "''components: ...''" "[scenarioEnd, scenarioStart]"]
  by (simp add: quietWorld_def)

text \<open>
  C3. A document without the \<open>components.x-sse-events\<close> section is not an error.
  getEvents returns the empty list. When the template of the language is read, parsed and
  executed on the data without events, the Go formatter accepts the text (for \<open>go\<close>)
  and the two file operations succeed, generateCode returns the text of the type without
  members, generateSSEEvents writes it and returns no error, and the program exits with
  status 0.
\<close>

theorem absent_section_generates_empty_type:
  assumes "os_ReadFile w (Input config) = Inr data"
    and "yaml_parse w data = Inr doc"
    and "x_sse_events doc = None"
    and "Lang config = Go \<and>
           embeddedTemplates_ReadFile w ''templates/go.tmpl'' = Inr tmplContent \<and>
           template_Parse w ''go.tmpl'' tmplContent = Inr tmpl \<and>
           format_Source w rendered = Inr generated \<or>
         Lang config = TS \<and>
           embeddedTemplates_ReadFile w ''templates/ts.tmpl'' = Inr tmplContent \<and>
           template_Parse w ''ts.tmpl'' tmplContent = Inr tmpl \<and>
           generated = rendered"
    and "template_Execute w tmpl
           \<lparr>td_Package = Package config, td_TypeName = TypeName config, td_Events = []\<rparr>
         = Inr rendered"
    and "os_MkdirAll w (filepath_Dir w (Output config)) = None"
    and "os_WriteFile w (Output config) generated = None"
  shows "getEvents w (Input config) = Inr [] \<and>
         generateCode w
           \<lparr>td_Package = Package config, td_TypeName = TypeName config, td_Events = []\<rparr>
           config = Inr generated \<and>
         generateSSEEvents w config =
           ([IO_ReadFile (Input config), IO_MkdirAll (filepath_Dir w (Output config)),
             IO_WriteFile (Output config) generated], None) \<and>
         (\<forall>args. parseFlags args = Inr config \<longrightarrow> snd (main w args) = 0)"
proof -
  have "yaml_Unmarshal w data = Inr (decodeSpec doc)"
    using assms(2) by (simp add: yaml_Unmarshal_def)
  with assms(1) have "getEvents w (Input config) =
      Inr (SortFunc (slices_pdqsort w)
             (rangeEvents (SSEEvents (Components (decodeSpec doc))) []) cmpKey)"
    by (rule getEvents_parsed)
  with assms(3) have empty: "getEvents w (Input config) = Inr []"
    by (simp add: decodeSpec_def SortFunc_def insertionSortCmpFunc_def)
  have "TS \<noteq> Go"
    by (simp add: TS_def Go_def)
  with assms(4,5) have code: "generateCode w
      \<lparr>td_Package = Package config, td_TypeName = TypeName config, td_Events = []\<rparr>
      config = Inr generated"
    by (auto simp: generateCode_def)
  with empty assms(6,7) have run: "generateSSEEvents w config =
      ([IO_ReadFile (Input config), IO_MkdirAll (filepath_Dir w (Output config)),
        IO_WriteFile (Output config) generated], None)"
    by (simp add: generateSSEEvents_def)
  then have "\<forall>args. parseFlags args = Inr config \<longrightarrow> snd (main w args) = 0"
    by (simp add: main_def)
  with empty code run show ?thesis
    by blast
qed

theorem absent_section_generates_empty_type_witness:
  "main (quietWorld None) (commandLine ''go'') =
     ([IO_ReadFile ''api.yaml'', IO_MkdirAll ''.'', IO_WriteFile ''events.out'' ''SSEEvent'',
       IO_Stdout (''Successfully generated go enum in events.out'' @ [CHR 0x0A])], 0) \<and>
   getEvents (quietWorld None) ''api.yaml'' = Inr [] \<and>
   generateSSEEvents (quietWorld None)
     \<lparr>Input = ''api.yaml'', Output = ''events.out'', TypeName = ''SSEEvent'',
      Package = ''events'', Lang = ''go''\<rparr> =
     ([IO_ReadFile ''api.yaml'', IO_MkdirAll ''.'', IO_WriteFile ''events.out'' ''SSEEvent''],
      None)"
proof -
  let ?w = "quietWorld None"
  let ?config = "\<lparr>Input = ''api.yaml'', Output = ''events.out'', TypeName = ''SSEEvent'',
      Package = ''events'', Lang = ''go''\<rparr>"
  let ?tmpl = "Template ''go.tmpl'' ''templates/go.tmpl''"
  have flags: "parseFlags (commandLine ''go'') = Inr ?config"
    by code_simp
  have read: "os_ReadFile ?w (Input ?config) = Inr ''components: ...''"
    by (simp add: quietWorld_def)
  have parsed: "yaml_parse ?w ''components: ...'' = Inr \<lparr>x_sse_events = None\<rparr>"
    by (simp add: quietWorld_def)
  have absent: "x_sse_events \<lparr>x_sse_events = None\<rparr> = None"
    by simp
  have template: "Lang ?config = Go \<and>
      embeddedTemplates_ReadFile ?w ''templates/go.tmpl'' = Inr ''templates/go.tmpl'' \<and>
      template_Parse ?w ''go.tmpl'' ''templates/go.tmpl'' = Inr ?tmpl \<and>
      format_Source ?w ''SSEEvent'' = Inr ''SSEEvent'' \<or>
    Lang ?config = TS \<and>
      embeddedTemplates_ReadFile ?w ''templates/ts.tmpl'' = Inr ''templates/go.tmpl'' \<and>
      template_Parse ?w ''ts.tmpl'' ''templates/go.tmpl'' = Inr ?tmpl \<and>
      ''SSEEvent'' = ''SSEEvent''"
    by (simp add: quietWorld_def Go_def)
  have rendered: "template_Execute ?w ?tmpl
      \<lparr>td_Package = Package ?config, td_TypeName = TypeName ?config, td_Events = []\<rparr> =
      Inr ''SSEEvent''"
    by (simp add: quietWorld_def renderEvents_def)
  have dir: "filepath_Dir ?w (Output ?config) = ''.''"
    by (simp add: quietWorld_def)
  have mkdir: "os_MkdirAll ?w (filepath_Dir ?w (Output ?config)) = None"
    by (simp add: quietWorld_def)
  have stored: "os_WriteFile ?w (Output ?config) ''SSEEvent'' = None"
    by (simp add: quietWorld_def)
  note run = absent_section_generates_empty_type
    [OF read parsed absent template rendered mkdir stored]
  from run have events: "getEvents ?w ''api.yaml'' = Inr []"
    by simp
  from run have written: "generateSSEEvents ?w ?config =
      ([IO_ReadFile ''api.yaml'', IO_MkdirAll ''.'', IO_WriteFile ''events.out'' ''SSEEvent''],
       None)"
    unfolding dir by simp
  with flags have "main ?w (commandLine ''go'') =
      ([IO_ReadFile ''api.yaml'', IO_MkdirAll ''.'', IO_WriteFile ''events.out'' ''SSEEvent'',
        IO_Stdout (''Successfully generated go enum in events.out'' @ [CHR 0x0A])], 0)"
    by (simp add: main_def)
  with events written show ?thesis
    by simp
qed

subsection \<open>Rendering and writing\<close>

text \<open>
  C4. For the language \<open>go\<close>, what generateCode returns is what the Go formatter
  returns on the text the template rendered. When the formatter fails, generateSSEEvents
  returns the error without attempting to create the directory or to write the file, and
  the program exits with status 1.
\<close>

theorem go_output_is_formatted_or_not_written:
  assumes "Lang config = Go"
    and "embeddedTemplates_ReadFile w ''templates/go.tmpl'' = Inr tmplContent"
    and "template_Parse w ''go.tmpl'' tmplContent = Inr tmpl"
    and "getEvents w (Input config) = Inr events"
    and "template_Execute w tmpl
           \<lparr>td_Package = Package config, td_TypeName = TypeName config, td_Events = events\<rparr>
         = Inr rendered"
  shows "generateCode w
           \<lparr>td_Package = Package config, td_TypeName = TypeName config, td_Events = events\<rparr>
           config = format_Source w rendered \<and>
         (\<forall>err. format_Source w rendered = Inl err \<longrightarrow>
            generateSSEEvents w config =
              ([IO_ReadFile (Input config)], Some (Errorf ''error generating code'' err)) \<and>
            \<not> list_ex isWrite (fst (generateSSEEvents w config)) \<and>
            (\<forall>args. parseFlags args = Inr config \<longrightarrow>
               snd (main w args) = 1 \<and> \<not> list_ex isWrite (fst (main w args))))"
proof -
  have code: "generateCode w
      \<lparr>td_Package = Package config, td_TypeName = TypeName config, td_Events = events\<rparr>
      config = format_Source w rendered"
    using assms(1,2,3,5) by (simp add: generateCode_def)
  have failed: "generateSSEEvents w config =
      ([IO_ReadFile (Input config)], Some (Errorf ''error generating code'' err))"
    if "format_Source w rendered = Inl err" for err
    using that code assms(4) by (simp add: generateSSEEvents_def)
  from code failed show ?thesis
    by (simp add: main_def)
qed

theorem go_output_is_formatted_or_not_written_witness:
  "parseFlags (commandLine ''go'') =
     Inr \<lparr>Input = ''api.yaml'', Output = ''events.out'', TypeName = ''SSEEvent'',
          Package = ''events'', Lang = ''go''\<rparr> \<and>
   main ((quietWorld (Some [scenarioStart]))
           \<lparr>format_Source := \<lambda>src. Inl (Error ''expected declaration'')\<rparr>)
     (commandLine ''go'') =
     ([IO_ReadFile ''api.yaml'',
       IO_Stderr (''Error: error generating code: expected declaration'' @ [CHR 0x0A])], 1)"
proof -
  let ?w = "(quietWorld (Some [scenarioStart]))
           \<lparr>format_Source := \<lambda>src. Inl (Error ''expected declaration'')\<rparr>"
  let ?config = "\<lparr>Input = ''api.yaml'', Output = ''events.out'', TypeName = ''SSEEvent'',
          Package = ''events'', Lang = ''go''\<rparr>"
  let ?events = "[\<lparr>Key = ''MessageStart'', Event = ''messageStart'', Description = ''start'',
          Deprecated = False\<rparr>]"
  have flags: "parseFlags (commandLine ''go'') = Inr ?config"
    by code_simp
  have events: "getEvents ?w (Input ?config) = Inr ?events"
    by code_simp
  have "generateSSEEvents ?w ?config =
      ([IO_ReadFile (Input ?config)],
       Some (Errorf ''error generating code'' (Error ''expected declaration'')))"
    using go_output_is_formatted_or_not_written [of ?config ?w "''templates/go.tmpl''"
        "Template ''go.tmpl'' ''templates/go.tmpl''" ?events
        "renderEvents (Template ''go.tmpl'' ''templates/go.tmpl'')
           \<lparr>td_Package = Package ?config, td_TypeName = TypeName ?config,
            td_Events = ?events\<rparr>"] events
    by (simp add: quietWorld_def Go_def)
  with flags show ?thesis
    by (simp add: main_def Errorf_def)
qed

text \<open>
  C5. For the language \<open>ts\<close>, generateCode returns the text the template rendered,
  whatever the formatter would do with it, and a write that generateSSEEvents attempts
  is the write of exactly this text to the output path; when the two file operations
  succeed, that write is made.
\<close>

theorem ts_output_is_written_verbatim:
  assumes "Lang config = TS"
    and "embeddedTemplates_ReadFile w ''templates/ts.tmpl'' = Inr tmplContent"
    and "template_Parse w ''ts.tmpl'' tmplContent = Inr tmpl"
    and "getEvents w (Input config) = Inr events"
    and "template_Execute w tmpl
           \<lparr>td_Package = Package config, td_TypeName = TypeName config, td_Events = events\<rparr>
         = Inr rendered"
  shows "generateCode (w\<lparr>format_Source := formatter\<rparr>)
           \<lparr>td_Package = Package config, td_TypeName = TypeName config, td_Events = events\<rparr>
           config = Inr rendered \<and>
         (\<forall>io \<in> set (fst (generateSSEEvents w config)).
            isWrite io \<longrightarrow> io = IO_WriteFile (Output config) rendered) \<and>
         (os_MkdirAll w (filepath_Dir w (Output config)) = None \<and>
          os_WriteFile w (Output config) rendered = None \<longrightarrow>
            generateSSEEvents w config =
              ([IO_ReadFile (Input config), IO_MkdirAll (filepath_Dir w (Output config)),
                IO_WriteFile (Output config) rendered], None))"
proof -
  have "TS \<noteq> Go"
    by (simp add: TS_def Go_def)
  with assms(1) have lang: "Lang config \<noteq> Go"
    by simp
  have code: "generateCode (w\<lparr>format_Source := f\<rparr>)
      \<lparr>td_Package = Package config, td_TypeName = TypeName config, td_Events = events\<rparr>
      config = Inr rendered" for f
    using lang assms(1,2,3,5) by (simp add: generateCode_def)
  from code [of "format_Source w"] have "generateCode w
      \<lparr>td_Package = Package config, td_TypeName = TypeName config, td_Events = events\<rparr>
      config = Inr rendered"
    by simp
  with assms(4) have run: "generateSSEEvents w config =
      (case os_MkdirAll w (filepath_Dir w (Output config)) of
         Some err \<Rightarrow>
           ([IO_ReadFile (Input config), IO_MkdirAll (filepath_Dir w (Output config))],
            Some (Errorf ''error creating directory'' err))
       | None \<Rightarrow>
           (case os_WriteFile w (Output config) rendered of
              Some err \<Rightarrow>
                ([IO_ReadFile (Input config), IO_MkdirAll (filepath_Dir w (Output config)),
                  IO_WriteFile (Output config) rendered],
                 Some (Errorf ''error writing file'' err))
            | None \<Rightarrow>
                ([IO_ReadFile (Input config), IO_MkdirAll (filepath_Dir w (Output config)),
                  IO_WriteFile (Output config) rendered], None)))"
    by (simp add: generateSSEEvents_def)
  have writes:
    "(\<forall>io \<in> set (fst (generateSSEEvents w config)).
        isWrite io \<longrightarrow> io = IO_WriteFile (Output config) rendered) \<and>
     (os_MkdirAll w (filepath_Dir w (Output config)) = None \<and>
      os_WriteFile w (Output config) rendered = None \<longrightarrow>
        generateSSEEvents w config =
          ([IO_ReadFile (Input config), IO_MkdirAll (filepath_Dir w (Output config)),
            IO_WriteFile (Output config) rendered], None))"
  proof (cases "os_MkdirAll w (filepath_Dir w (Output config))")
    case (Some err)
    with run show ?thesis
      by simp
  next
    case None
    with run show ?thesis
      by (cases "os_WriteFile w (Output config) rendered") simp_all
  qed
  with code show ?thesis
    by blast
qed

theorem ts_output_is_written_verbatim_witness:
  "generateSSEEvents
     ((quietWorld (Some [scenarioStart]))\<lparr>format_Source := \<lambda>src. Inr (''// formatted'' @ src)\<rparr>)
     \<lparr>Input = ''api.yaml'', Output = ''events.ts'', TypeName = ''SSEEvent'',
      Package = ''events'', Lang = ''ts''\<rparr> =
   ([IO_ReadFile ''api.yaml'', IO_MkdirAll ''.'',
     IO_WriteFile ''events.ts'' ''SSEEvent MessageStart=messageStart''], None)"
proof -
  let ?w = "(quietWorld (Some [scenarioStart]))
      \<lparr>format_Source := \<lambda>src. Inr (''// formatted'' @ src)\<rparr>"
  let ?config = "\<lparr>Input = ''api.yaml'', Output = ''events.ts'', TypeName = ''SSEEvent'',
      Package = ''events'', Lang = ''ts''\<rparr>"
  let ?events = "[\<lparr>Key = ''MessageStart'', Event = ''messageStart'', Description = ''start'',
      Deprecated = False\<rparr>]"
  let ?tmpl = "Template ''ts.tmpl'' ''templates/ts.tmpl''"
  have lang: "Lang ?config = TS"
    by (simp add: TS_def)
  have content: "embeddedTemplates_ReadFile ?w ''templates/ts.tmpl'' = Inr ''templates/ts.tmpl''"
    by (simp add: quietWorld_def)
  have parsed: "template_Parse ?w ''ts.tmpl'' ''templates/ts.tmpl'' = Inr ?tmpl"
    by (simp add: quietWorld_def)
  have events: "getEvents ?w (Input ?config) = Inr ?events"
    by code_simp
  have rendered: "template_Execute ?w ?tmpl
      \<lparr>td_Package = Package ?config, td_TypeName = TypeName ?config, td_Events = ?events\<rparr> =
      Inr ''SSEEvent MessageStart=messageStart''"
    by (simp add: quietWorld_def renderEvents_def)
  have files: "os_MkdirAll ?w (filepath_Dir ?w (Output ?config)) = None \<and>
      os_WriteFile ?w (Output ?config) ''SSEEvent MessageStart=messageStart'' = None"
    by (simp add: quietWorld_def)
  have dir: "filepath_Dir ?w (Output ?config) = ''.''"
    by (simp add: quietWorld_def)
  from ts_output_is_written_verbatim [OF lang content parsed events rendered] files
  have "generateSSEEvents ?w ?config =
      ([IO_ReadFile (Input ?config), IO_MkdirAll (filepath_Dir ?w (Output ?config)),
        IO_WriteFile (Output ?config) ''SSEEvent MessageStart=messageStart''], None)"
    by blast
  then show ?thesis
    unfolding dir by simp
qed

subsection \<open>The command line\<close>

lemma parseOne_error:
  "parseOne args = Inl failure \<Longrightarrow>
   failure = ([IO_Usage], ErrHelp) \<or> (\<exists>msg. failf msg = failure)"
  by (cases args) (auto simp: Let_def split: if_splits prod.splits option.splits list.splits)

lemma flag_Parse_exit:
  "flag_Parse actual args = Inl exit \<Longrightarrow>
   exit = ([IO_Usage], 0) \<or> (\<exists>msg. exit = ([IO_Stderr (msg @ [CHR 0x0A]), IO_Usage], 2))"
proof (induction actual args rule: flag_Parse.induct)
  case (1 actual args)
  note unfold = flag_Parse.simps [of actual args]
  show ?case
  proof (cases "parseOne args")
    case (Inl failure)
    obtain printed err where failure: "failure = (printed, err)"
      by (cases failure)
    from "1.prems" Inl failure have exit: "exit = (printed, if err = ErrHelp then 0 else 2)"
      by (simp add: unfold)
    from parseOne_error [OF Inl] failure exit show ?thesis
      by (auto simp: failf_def)
  next
    case (Inr seen)
    show ?thesis
    proof (cases seen)
      case None
      with Inr "1.prems" show ?thesis
        by (simp add: unfold)
    next
      case (Some rest)
      obtain name "value" args' where rest: "rest = (name, value, args')"
        by (cases rest)
      have "flag_Parse actual args = flag_Parse (actual(name \<mapsto> value)) args'"
        by (subst flag_Parse.simps) (simp add: Inr Some rest)
      with "1.prems" have "flag_Parse (actual(name \<mapsto> value)) args' = Inl exit"
        by simp
      with Inr Some rest [symmetric] refl show ?thesis
        by (rule "1.IH")
    qed
  qed
qed

text \<open>
  C6, as stated, fails: \<open>flag.Parse\<close> exits before the checks of lines 88-96 are reached.
  With no flag set but \<open>-h\<close> the program prints the usage text and exits with status 0;
  with an undefined flag, or with \<open>-lang\<close> as the last argument and no value, it exits with
  status 2.
\<close>

theorem usage_error_status_counterexample:
  "main (quietWorld None) [''-h''] = ([IO_Usage], 0) \<and>
   main (quietWorld None) [''-bogus''] =
     ([IO_Stderr (''flag provided but not defined: -bogus'' @ [CHR 0x0A]), IO_Usage], 2) \<and>
   main (quietWorld None) [''-i'', ''api.yaml'', ''-o'', ''events.out'', ''-lang''] =
     ([IO_Stderr (''flag needs an argument: -lang'' @ [CHR 0x0A]), IO_Usage], 2)"
  by code_simp

text \<open>
  C6, amended. When \<open>flag.Parse\<close> does not accept the command line, or accepts it and
  \<open>-i\<close>, \<open>-o\<close> or \<open>-lang\<close> is not set or \<open>-lang\<close> is set to something else than \<open>go\<close>
  or \<open>ts\<close>, the program prints the usage text and attempts no file operation. Its exit
  status is 1 when \<open>flag.Parse\<close> accepted the command line, and the usage text is then all
  it prints; it is 0 (for \<open>-h\<close> and \<open>-help\<close>) or 2 when \<open>flag.Parse\<close> did not.
\<close>

theorem usage_error_prints_usage_without_file_io:
  assumes "(\<exists>exit. flag_Parse Map.empty args = Inl exit) \<or>
           (\<exists>actual. flag_Parse Map.empty args = Inr actual \<and>
              (actual ''i'' = None \<or> actual ''o'' = None \<or> actual ''lang'' = None \<or>
               (actual ''lang'' \<noteq> Some Go \<and> actual ''lang'' \<noteq> Some TS)))"
  shows "IO_Usage \<in> set (fst (main w args)) \<and>
         \<not> list_ex isFileIO (fst (main w args)) \<and>
         (case flag_Parse Map.empty args of
            Inl exit \<Rightarrow> main w args = exit \<and> (snd exit = 0 \<or> snd exit = 2)
          | Inr actual \<Rightarrow> main w args = ([IO_Usage], 1))"
proof (cases "flag_Parse Map.empty args")
  case (Inl exit)
  then have run: "main w args = exit"
    by (simp add: main_def parseFlags_def)
  from Inl have "exit = ([IO_Usage], 0) \<or>
      (\<exists>msg. exit = ([IO_Stderr (msg @ [CHR 0x0A]), IO_Usage], 2))"
    by (rule flag_Parse_exit)
  with run Inl show ?thesis
    by auto
next
  case (Inr actual)
  with assms have "actual ''i'' = None \<or> actual ''o'' = None \<or> actual ''lang'' = None \<or>
      (actual ''lang'' \<noteq> Some Go \<and> actual ''lang'' \<noteq> Some TS)"
    by simp
  then have "parseFlags args = Inl ([IO_Usage], 1)"
    using Inr by (auto simp: parseFlags_def flagValue_def Let_def split: option.splits)
  with Inr show ?thesis
    by (simp add: main_def)
qed

theorem usage_error_prints_usage_without_file_io_witness:
  "main (quietWorld (Some [scenarioStart])) (commandLine ''rust'') = ([IO_Usage], 1) \<and>
   main (quietWorld (Some [scenarioStart])) [''-i'', ''api.yaml'', ''-lang'', ''go''] =
     ([IO_Usage], 1) \<and>
   snd (main (quietWorld (Some [scenarioStart])) [''-lang=go'', ''-output'', ''events.go'']) = 2"
proof -
  let ?w = "quietWorld (Some [scenarioStart])"
  have "case flag_Parse Map.empty (commandLine ''rust'') of
      Inl exit \<Rightarrow> False
    | Inr actual \<Rightarrow> actual ''lang'' \<noteq> Some Go \<and> actual ''lang'' \<noteq> Some TS"
    by code_simp
  then have unknown: "\<exists>actual. flag_Parse Map.empty (commandLine ''rust'') = Inr actual \<and>
      (actual ''i'' = None \<or> actual ''o'' = None \<or> actual ''lang'' = None \<or>
       (actual ''lang'' \<noteq> Some Go \<and> actual ''lang'' \<noteq> Some TS))"
    by (cases "flag_Parse Map.empty (commandLine ''rust'')") simp_all
  have "case flag_Parse Map.empty [''-i'', ''api.yaml'', ''-lang'', ''go''] of
      Inl exit \<Rightarrow> False
    | Inr actual \<Rightarrow> actual ''o'' = None"
    by code_simp
  then have missing: "\<exists>actual. flag_Parse Map.empty [''-i'', ''api.yaml'', ''-lang'', ''go''] =
        Inr actual \<and>
      (actual ''i'' = None \<or> actual ''o'' = None \<or> actual ''lang'' = None \<or>
       (actual ''lang'' \<noteq> Some Go \<and> actual ''lang'' \<noteq> Some TS))"
    by (cases "flag_Parse Map.empty [''-i'', ''api.yaml'', ''-lang'', ''go'']") simp_all
  have "case flag_Parse Map.empty [''-lang=go'', ''-output'', ''events.go''] of
      Inl exit \<Rightarrow> snd exit = 2
    | Inr actual \<Rightarrow> False"
    by code_simp
  then have refused: "\<exists>exit. flag_Parse Map.empty [''-lang=go'', ''-output'', ''events.go''] =
      Inl exit"
    by (cases "flag_Parse Map.empty [''-lang=go'', ''-output'', ''events.go'']") simp_all
  from unknown have first: "main ?w (commandLine ''rust'') = ([IO_Usage], 1)"
    using usage_error_prints_usage_without_file_io [of "commandLine ''rust''" ?w]
    by (cases "flag_Parse Map.empty (commandLine ''rust'')") auto
  from missing have second: "main ?w [''-i'', ''api.yaml'', ''-lang'', ''go''] = ([IO_Usage], 1)"
    using usage_error_prints_usage_without_file_io [of "[''-i'', ''api.yaml'', ''-lang'', ''go'']" ?w]
    by (cases "flag_Parse Map.empty [''-i'', ''api.yaml'', ''-lang'', ''go'']") auto
  have "snd (main ?w [''-lang=go'', ''-output'', ''events.go'']) \<noteq> 0"
    by code_simp
  with refused have third: "snd (main ?w [''-lang=go'', ''-output'', ''events.go'']) = 2"
    using usage_error_prints_usage_without_file_io [of "[''-lang=go'', ''-output'', ''events.go'']" ?w]
    by (cases "flag_Parse Map.empty [''-lang=go'', ''-output'', ''events.go'']") auto
  from first second third show ?thesis
    by simp
qed

subsection \<open>Visiting order and colliding keys\<close>

lemma sorted_distinct_Key_unique:
  assumes "mset xs = mset ys"
    and "distinct (map Key xs)"
    and "sorted (map Key xs)" and "sorted (map Key ys)"
  shows "xs = ys"
proof -
  have keys: "mset (map Key xs) = mset (map Key ys)"
    using assms(1) by (metis mset_map)
  then have "distinct (map Key ys)"
    using assms(2) by (metis mset_eq_imp_distinct_iff)
  from keys have "set (map Key xs) = set (map Key ys)"
    by (rule mset_eq_setD)
  with assms(2,3,4) \<open>distinct (map Key ys)\<close> have same: "map Key xs = map Key ys"
    by (metis sorted_distinct_set_unique)
  have "set ys = set xs"
    using assms(1) by (metis mset_eq_setD)
  moreover have "inj_on Key (set xs)"
    using assms(2) by (simp add: distinct_map)
  ultimately have "inj_on Key (set xs \<union> set ys)"
    by simp
  with same show ?thesis
    by (rule inj_on_map_eq_map [THEN iffD1, rotated])
qed

text \<open>
  C7, as stated, fails: the identifiers \<open>Message-Start\<close> and \<open>MessageStart\<close> both
  normalize to \<open>MessageStart\<close>, the sort leaves the two events in the order of the loop,
  and the two visiting orders of the same mapping give two different lists: the wire names
  come out as \<open>x, y\<close> in one run and as \<open>y, x\<close> in the other.
\<close>

theorem visiting_order_shows_counterexample:
  "map_sum id (map Event) (getEvents (quietWorld (Some [hyphenated, joined])) ''api.yaml'') =
     Inr [''x'', ''y''] \<and>
   map_sum id (map Event) (getEvents (quietWorld (Some [joined, hyphenated])) ''api.yaml'') =
     Inr [''y'', ''x'']"
  by code_simp

text \<open>
  C7, amended. For a mapping whose keys stay pairwise distinct after normalization, two
  runs that visit the entries in different orders return the same list.
\<close>

theorem getEvents_order_independent:
  assumes "os_ReadFile w1 file1 = Inr data1" and "yaml_Unmarshal w1 data1 = Inr spec1"
    and "os_ReadFile w2 file2 = Inr data2" and "yaml_Unmarshal w2 data2 = Inr spec2"
    and "mset (SSEEvents (Components spec1)) = mset (SSEEvents (Components spec2))"
    and "distinct (map (ToCamel \<circ> fst) (SSEEvents (Components spec1)))"
    and "sortsByKey (slices_pdqsort w1)" and "sortsByKey (slices_pdqsort w2)"
  shows "getEvents w1 file1 = getEvents w2 file2"
proof -
  let ?in1 = "rangeEvents (SSEEvents (Components spec1)) []"
  let ?in2 = "rangeEvents (SSEEvents (Components spec2)) []"
  let ?out1 = "SortFunc (slices_pdqsort w1) ?in1 cmpKey"
  let ?out2 = "SortFunc (slices_pdqsort w2) ?in2 cmpKey"
  have "mset ?in1 = mset ?in2"
    using assms(5) by (simp add: rangeEvents_map)
  then have same: "mset ?out1 = mset ?out2"
    using assms(7,8) by (simp add: mset_SortFunc)
  have "mset (map Key ?out1) = mset (map Key ?in1)"
    using assms(7) by (simp add: mset_SortFunc)
  moreover have "distinct (map Key ?in1)"
    using assms(6) by (simp only: Key_rangeEvents)
  ultimately have "distinct (map Key ?out1)"
    by (metis mset_eq_imp_distinct_iff)
  with same have "?out1 = ?out2"
    using sorted_SortFunc [OF assms(7)] sorted_SortFunc [OF assms(8)]
    by (rule sorted_distinct_Key_unique)
  then show ?thesis
    using getEvents_parsed [OF assms(1,2)] getEvents_parsed [OF assms(3,4)] by simp
qed

theorem getEvents_order_independent_witness:
  "getEvents (quietWorld (Some [scenarioStart, scenarioEnd])) ''api.yaml'' =
   getEvents (quietWorld (Some [scenarioEnd, scenarioStart])) ''api.yaml''"
proof -
  have same: "mset (SSEEvents (Components
        (decodeSpec \<lparr>x_sse_events = Some [scenarioStart, scenarioEnd]\<rparr>))) =
      mset (SSEEvents (Components
        (decodeSpec \<lparr>x_sse_events = Some [scenarioEnd, scenarioStart]\<rparr>)))"
    by (simp add: decodeSpec_def)
  have normalized: "map (ToCamel \<circ> fst) (SSEEvents (Components
        (decodeSpec \<lparr>x_sse_events = Some [scenarioStart, scenarioEnd]\<rparr>))) =
      [''MessageStart'', ''MessageEnd'']"
    by code_simp
  have apart: "distinct (map (ToCamel \<circ> fst) (SSEEvents (Components
        (decodeSpec \<lparr>x_sse_events = Some [scenarioStart, scenarioEnd]\<rparr>))))"
    unfolding normalized by simp
  show ?thesis
    using quietWorld_reads quietWorld_parses quietWorld_reads quietWorld_parses same apart
      quietWorld_sorts quietWorld_sorts
    by (rule getEvents_order_independent)
qed

text \<open>
  C9, as stated, fails: the two distinct keys \<open>Message-Start\<close> and \<open>MessageStart\<close>
  give two events with the same normalized key \<open>MessageStart\<close>.
\<close>

theorem normalized_keys_collide_counterexample:
  "fst hyphenated \<noteq> fst joined \<and>
   map_sum id (map Key) (getEvents (quietWorld (Some [hyphenated, joined])) ''api.yaml'') =
     Inr [''MessageStart'', ''MessageStart'']"
proof -
  have "fst hyphenated \<noteq> fst joined"
    by (simp add: hyphenated_def joined_def)
  moreover have "map_sum id (map Key)
      (getEvents (quietWorld (Some [hyphenated, joined])) ''api.yaml'') =
      Inr [''MessageStart'', ''MessageStart'']"
    by code_simp
  ultimately show ?thesis
    by simp
qed

text \<open>
  C9, amended. When no two keys of the mapping have the same normalized form, the
  normalized keys of the list are pairwise distinct and the list is strictly ascending: the
  sort meets no tie.
\<close>

theorem normalized_keys_distinct_without_collision:
  assumes "os_ReadFile w inputFile = Inr data"
    and "yaml_Unmarshal w data = Inr spec"
    and "distinct (map fst (SSEEvents (Components spec)))"
    and "inj_on ToCamel (fst ` set (SSEEvents (Components spec)))"
    and "sortsByKey (slices_pdqsort w)"
  shows "\<exists>events. getEvents w inputFile = Inr events \<and>
           distinct (map Key events) \<and> sorted_wrt (<) (map Key events)"
proof -
  let ?m = "SSEEvents (Components spec)"
  let ?events = "SortFunc (slices_pdqsort w) (rangeEvents ?m []) cmpKey"
  have "distinct (map (ToCamel \<circ> fst) ?m)"
    using assms(3,4) by (auto simp: distinct_map intro: comp_inj_on)
  then have "distinct (map Key (rangeEvents ?m []))"
    by (simp only: Key_rangeEvents)
  moreover have "mset (map Key ?events) = mset (map Key (rangeEvents ?m []))"
    using assms(5) by (simp add: mset_SortFunc)
  ultimately have apart: "distinct (map Key ?events)"
    by (metis mset_eq_imp_distinct_iff)
  moreover have "sorted (map Key ?events)"
    using assms(5) by (rule sorted_SortFunc)
  ultimately have "sorted_wrt (<) (map Key ?events)"
    by (simp add: strict_sorted_iff)
  with apart getEvents_parsed [OF assms(1,2)] show ?thesis
    by simp
qed

theorem normalized_keys_distinct_without_collision_witness:
  "inj_on ToCamel {''message_start'', ''message_end''} \<and>
   (\<exists>events. getEvents (quietWorld (Some [scenarioStart, scenarioEnd])) ''api.yaml'' = Inr events \<and>
      distinct (map Key events) \<and> sorted_wrt (<) (map Key events))"
proof -
  let ?spec = "decodeSpec \<lparr>x_sse_events = Some [scenarioStart, scenarioEnd]\<rparr>"
  have keys: "map fst (SSEEvents (Components ?spec)) = [''message_start'', ''message_end'']"
    by (simp add: decodeSpec_def scenarioStart_def scenarioEnd_def)
  have "ToCamel ''message_start'' = ''MessageStart''" and "ToCamel ''message_end'' = ''MessageEnd''"
    by code_simp+
  then have inj: "inj_on ToCamel {''message_start'', ''message_end''}"
    by simp
  have apart: "distinct (map fst (SSEEvents (Components ?spec)))"
    unfolding keys by simp
  have "fst ` set (SSEEvents (Components ?spec)) = set (map fst (SSEEvents (Components ?spec)))"
    by simp
  also have "\<dots> = {''message_start'', ''message_end''}"
    unfolding keys by simp
  finally have "inj_on ToCamel (fst ` set (SSEEvents (Components ?spec)))"
    using inj by simp
  with quietWorld_reads quietWorld_parses apart
  have "\<exists>events. getEvents (quietWorld (Some [scenarioStart, scenarioEnd])) ''api.yaml'' = Inr events \<and>
      distinct (map Key events) \<and> sorted_wrt (<) (map Key events)"
    using quietWorld_sorts by (rule normalized_keys_distinct_without_collision)
  with inj show ?thesis
    by simp
qed

text \<open>
  C10. A descriptor without the \<open>event\<close> field, or with the empty string in it, is
  accepted: whenever the file is read and parsed getEvents returns a list, and the list
  holds the event of this descriptor, its key normalized and its wire name empty.
\<close>

theorem missing_event_field_is_accepted:
  assumes "os_ReadFile w inputFile = Inr data"
    and "yaml_parse w data = Inr doc"
    and "x_sse_events doc = Some kvs"
    and "(key, y) \<in> set kvs"
    and "yaml_event y = None \<or> yaml_event y = Some []"
    and "sortsByKey (slices_pdqsort w)"
  shows "\<exists>events. getEvents w inputFile = Inr events \<and>
           (decodeEvent y)\<lparr>Key := ToCamel key, Event := []\<rparr> \<in> set events"
proof -
  let ?m = "SSEEvents (Components (decodeSpec doc))"
  let ?events = "SortFunc (slices_pdqsort w) (rangeEvents ?m []) cmpKey"
  have "yaml_Unmarshal w data = Inr (decodeSpec doc)"
    using assms(2) by (simp add: yaml_Unmarshal_def)
  with assms(1) have result: "getEvents w inputFile = Inr ?events"
    by (rule getEvents_parsed)
  have unset: "Event (decodeEvent y) = []"
    using assms(5) by (auto simp: decodeEvent_def)
  have "(key, decodeEvent y) \<in> set ?m"
    using assms(3,4) by (force simp: decodeSpec_def)
  then have "(decodeEvent y)\<lparr>Key := ToCamel key, Event := ToLowerCamel (Event (decodeEvent y))\<rparr>
      \<in> set (rangeEvents ?m [])"
    by (force simp: rangeEvents_map)
  then have "(decodeEvent y)\<lparr>Key := ToCamel key, Event := []\<rparr> \<in> set (rangeEvents ?m [])"
    by (simp add: unset ToLowerCamel_empty)
  moreover have "set ?events = set (rangeEvents ?m [])"
    using mset_SortFunc [OF assms(6)] by (rule mset_eq_setD)
  ultimately show ?thesis
    using result by simp
qed

theorem missing_event_field_is_accepted_witness:
  "yaml_event (snd eventless) = None \<and>
   getEvents (quietWorld (Some [eventless])) ''api.yaml'' =
     Inr [\<lparr>Key = ''Ping'', Event = [], Description = ''keep-alive'', Deprecated = False\<rparr>]"
proof -
  have unset: "yaml_event (snd eventless) = None"
    by (simp add: eventless_def)
  have entry: "(decodeEvent (snd eventless))\<lparr>Key := ToCamel (fst eventless), Event := []\<rparr> =
      \<lparr>Key = ''Ping'', Event = [], Description = ''keep-alive'', Deprecated = False\<rparr>"
    by code_simp
  have single: "length (rangeEvents (SSEEvents (Components
      (decodeSpec \<lparr>x_sse_events = Some [eventless]\<rparr>))) []) = 1"
    by (simp add: decodeSpec_def rangeEvents_map)
  from missing_event_field_is_accepted [of "quietWorld (Some [eventless])" "''api.yaml''"
      "''components: ...''" "\<lparr>x_sse_events = Some [eventless]\<rparr>" "[eventless]"
      "fst eventless" "snd eventless"] unset quietWorld_sorts
  obtain events where events: "getEvents (quietWorld (Some [eventless])) ''api.yaml'' = Inr events"
    and holds: "(decodeEvent (snd eventless))\<lparr>Key := ToCamel (fst eventless), Event := []\<rparr>
      \<in> set events"
    by (auto simp: quietWorld_def)
  have "getEvents (quietWorld (Some [eventless])) ''api.yaml'' =
      Inr (SortFunc (slices_pdqsort (quietWorld (Some [eventless])))
        (rangeEvents (SSEEvents (Components (decodeSpec \<lparr>x_sse_events = Some [eventless]\<rparr>))) [])
        cmpKey)"
    using quietWorld_reads quietWorld_parses by (rule getEvents_parsed)
  with events have "length events = 1"
    using mset_SortFunc [OF quietWorld_sorts, THEN arg_cong, of size "Some [eventless]"] single
    by auto
  with holds have "events = [(decodeEvent (snd eventless))\<lparr>Key := ToCamel (fst eventless), Event := []\<rparr>]"
    by (cases events) auto
  with events entry unset show ?thesis
    by simp
qed

subsection \<open>Normalizing twice\<close>

lemma isCap_nat: "isCap v \<longleftrightarrow> 65 \<le> (of_char v :: nat) \<and> (of_char v :: nat) \<le> 90"
  unfolding isCap_def less_eq_char_def by simp

lemma isLow_nat: "isLow v \<longleftrightarrow> 97 \<le> (of_char v :: nat) \<and> (of_char v :: nat) \<le> 122"
  unfolding isLow_def less_eq_char_def by simp

lemma isNum_nat: "isNum v \<longleftrightarrow> 48 \<le> (of_char v :: nat) \<and> (of_char v :: nat) \<le> 57"
  unfolding isNum_def less_eq_char_def by simp

lemma isCap_upperByte:
  assumes "isLow v"
  shows "isCap (upperByte v)"
proof -
  define n :: nat where "n = of_char v"
  have range: "97 \<le> n \<and> n \<le> 122"
    using assms by (simp add: isLow_nat n_def)
  have "(of_char v :: int) = int n"
    by (simp add: n_def of_nat_of_char)
  then have "(of_char v :: int) + of_char CHR ''A'' - of_char CHR ''a'' = int (n - 32)"
    using range by simp
  then have "upperByte v = char_of (int (n - 32))"
    by (simp only: upperByte_def)
  also have "\<dots> = char_of (n - 32)"
    by (rule char_of_nat)
  finally have "(of_char (upperByte v) :: nat) = (n - 32) mod 256"
    by (simp only: of_char_of)
  also have "\<dots> = n - 32"
    using range by (intro mod_less) arith
  finally show ?thesis
    using range by (auto simp: isCap_nat)
qed

lemma isLow_lowerByte:
  assumes "isCap v"
  shows "isLow (lowerByte v)"
proof -
  define n :: nat where "n = of_char v"
  have range: "65 \<le> n \<and> n \<le> 90"
    using assms by (simp add: isCap_nat n_def)
  have "(of_char v :: int) = int n"
    by (simp add: n_def of_nat_of_char)
  then have "(of_char v :: int) + of_char CHR ''a'' - of_char CHR ''A'' = int (n + 32)"
    using range by simp
  then have "lowerByte v = char_of (int (n + 32))"
    by (simp only: lowerByte_def)
  also have "\<dots> = char_of (n + 32)"
    by (rule char_of_nat)
  finally have "(of_char (lowerByte v) :: nat) = (n + 32) mod 256"
    by (simp only: of_char_of)
  also have "\<dots> = n + 32"
    using range by (intro mod_less) arith
  finally show ?thesis
    using range by (auto simp: isLow_nat)
qed

lemma isNum_not_letter: "isNum v \<Longrightarrow> \<not> isCap v \<and> \<not> isLow v"
  by (simp add: isNum_nat isCap_nat isLow_nat)

lemma alnum_camelLoop:
  "c \<in> set (camelLoop i capNext prevIsCap s) \<Longrightarrow> isCap c \<or> isLow c \<or> isNum c"
proof (induction s arbitrary: i capNext prevIsCap)
  case Nil
  then show ?case by simp
next
  case (Cons v vs)
  show ?case
  proof (cases "isCap v \<or> isLow v")
    case True
    with Cons show ?thesis
      by (auto simp: Let_def isCap_upperByte isLow_lowerByte split: if_splits)
  next
    case False
    with Cons show ?thesis
      by (auto simp: Let_def split: if_splits)
  qed
qed

text \<open>After a letter or a digit \<open>a\<close> the flags of the loop are \<open>isNum a\<close> and \<open>isCap a\<close>.\<close>

lemma camelLoop_settled:
  assumes "\<forall>c \<in> set (a # t). isCap c \<or> isLow c \<or> isNum c"
    and "settled (a # t)"
  shows "camelLoop (Suc i) (isNum a) (isCap a) t = t"
  using assms
proof (induction t arbitrary: a i)
  case Nil
  then show ?case by simp
next
  case (Cons b bs)
  from Cons.prems have pair: "\<not> (isCap a \<and> isCap b)" "\<not> (isNum a \<and> isLow b)"
    and rest: "settled (b # bs)"
    and alnum: "\<forall>c \<in> set (b # bs). isCap c \<or> isLow c \<or> isNum c"
    by simp_all
  have tail: "camelLoop (Suc (Suc i)) (isNum b) (isCap b) bs = bs"
    using alnum rest by (rule Cons.IH)
  show ?case
  proof (cases "isNum b")
    case True
    with pair tail isNum_not_letter [of b] show ?thesis
      by (simp add: Let_def)
  next
    case False
    with alnum have "isCap b \<or> isLow b"
      by simp
    with False pair tail show ?thesis
      by (auto simp: Let_def)
  qed
qed

lemma camelLoop_fixed:
  assumes "\<forall>c \<in> set t. isCap c \<or> isLow c \<or> isNum c"
    and "settled t"
    and "\<not> startsWith (if initCase then isLow else isCap) t"
  shows "camelLoop 0 initCase False t = t"
proof (cases t)
  case Nil
  then show ?thesis by simp
next
  case (Cons a as)
  have tail: "camelLoop (Suc 0) (isNum a) (isCap a) as = as"
    using assms(1,2) unfolding Cons by (rule camelLoop_settled)
  show ?thesis
  proof (cases "isNum a")
    case True
    with tail isNum_not_letter [of a] show ?thesis
      by (simp add: Cons Let_def)
  next
    case False
    with assms(1) have "isCap a \<or> isLow a"
      by (simp add: Cons)
    with False tail assms(3) show ?thesis
      by (cases initCase) (auto simp: Cons Let_def)
  qed
qed

text \<open>No white space begins or ends with a letter or a digit, so there is nothing to trim.\<close>

lemma spaceRunes_ends:
  "list_all (\<lambda>p. p \<noteq> [] \<and>
      \<not> (isCap (hd p) \<or> isLow (hd p) \<or> isNum (hd p)) \<and>
      \<not> (isCap (last p) \<or> isLow (last p) \<or> isNum (last p))) spaceRunes"
  by code_simp

lemma TrimSpace_alnum:
  assumes "\<forall>c \<in> set t. isCap c \<or> isLow c \<or> isNum c"
  shows "TrimSpace t = t"
proof -
  have ends: "p \<noteq> [] \<and> \<not> (isCap (hd p) \<or> isLow (hd p) \<or> isNum (hd p)) \<and>
      \<not> (isCap (last p) \<or> isLow (last p) \<or> isNum (last p))" if "p \<in> set spaceRunes" for p
    using spaceRunes_ends that by (simp add: list_all_iff)
  have "\<not> prefix p t" if "p \<in> set spaceRunes" for p
  proof
    assume "prefix p t"
    then obtain r where t: "t = p @ r"
      by (auto simp: prefix_def)
    from ends [OF that] have "p \<noteq> []"
      by simp
    with t have "hd p \<in> set t"
      by simp
    with assms ends [OF that] show False
      by blast
  qed
  then have "leadingSpace t = 0"
    by (auto simp: leadingSpace_def find_None_iff split: option.splits dest: find_Some_iff [THEN iffD1])
  then have left: "TrimLeftSpace t = t"
    by (subst TrimLeftSpace.simps) simp
  have "\<not> suffix p t" if "p \<in> set spaceRunes" for p
  proof
    assume "suffix p t"
    then obtain r where t: "t = r @ p"
      by (auto simp: suffix_def)
    from ends [OF that] have "p \<noteq> []"
      by simp
    with t have "last p \<in> set t"
      by simp
    with assms ends [OF that] show False
      by blast
  qed
  then have "trailingSpace t = 0"
    by (auto simp: trailingSpace_def find_None_iff split: option.splits dest: find_Some_iff [THEN iffD1])
  then have "TrimRightSpace t = t"
    by (subst TrimRightSpace.simps) simp
  with left show ?thesis
    by (simp add: TrimSpace_def)
qed

lemma alnum_toCamelInitCase:
  "c \<in> set (toCamelInitCase s initCase) \<Longrightarrow> isCap c \<or> isLow c \<or> isNum c"
  by (auto simp: toCamelInitCase_def Let_def dest: alnum_camelLoop split: if_splits)

lemma toCamelInitCase_fixed:
  assumes "\<forall>c \<in> set t. isCap c \<or> isLow c \<or> isNum c"
    and "settled t"
    and "\<not> startsWith (if initCase then isLow else isCap) t"
  shows "toCamelInitCase t initCase = t"
  using camelLoop_fixed [OF assms] TrimSpace_alnum [OF assms(1)]
  by (simp add: toCamelInitCase_def)

text \<open>
  C8, as stated, fails for both conversions: \<open>a_b\<close> becomes \<open>AB\<close> and then \<open>Ab\<close>,
  \<open>$ref\<close> becomes \<open>ref\<close> and then \<open>Ref\<close>; \<open>x_y_z\<close> becomes \<open>xYZ\<close> and then
  \<open>xYz\<close>, \<open>_a\<close> becomes \<open>A\<close> and then \<open>a\<close>.
\<close>

theorem normalization_not_idempotent_counterexample:
  "ToCamel ''a_b'' = ''AB'' \<and> ToCamel ''AB'' = ''Ab'' \<and>
   ToCamel ''$ref'' = ''ref'' \<and> ToCamel ''ref'' = ''Ref'' \<and>
   ToLowerCamel ''x_y_z'' = ''xYZ'' \<and> ToLowerCamel ''xYZ'' = ''xYz'' \<and>
   ToLowerCamel ''_a'' = ''A'' \<and> ToLowerCamel ''A'' = ''a''"
  by code_simp

text \<open>
  C8, amended. A normalized key that is settled and does not begin with a lowercase
  letter is normalized to itself, and so is a normalized wire name that is settled and
  does not begin with a capital letter.
\<close>

theorem normalization_idempotent_when_settled:
  "(settled (ToCamel s) \<and> \<not> startsWith isLow (ToCamel s) \<longrightarrow>
      ToCamel (ToCamel s) = ToCamel s) \<and>
   (settled (ToLowerCamel s) \<and> \<not> startsWith isCap (ToLowerCamel s) \<longrightarrow>
      ToLowerCamel (ToLowerCamel s) = ToLowerCamel s)"
proof -
  have "toCamelInitCase (toCamelInitCase s initCase) initCase = toCamelInitCase s initCase"
    if "settled (toCamelInitCase s initCase)"
      and "\<not> startsWith (if initCase then isLow else isCap) (toCamelInitCase s initCase)"
    for initCase
    using that by (intro toCamelInitCase_fixed) (auto dest: alnum_toCamelInitCase)
  from this [of True] this [of False] show ?thesis
    by (simp add: ToCamel_def ToLowerCamel_def)
qed

theorem normalization_idempotent_when_settled_witness:
  "settled (ToCamel ''message_start'') \<and> \<not> startsWith isLow (ToCamel ''message_start'') \<and>
   ToCamel (ToCamel ''message_start'') = ToCamel ''message_start'' \<and>
   settled (ToLowerCamel ''message_start'') \<and>
   \<not> startsWith isCap (ToLowerCamel ''message_start'') \<and>
   ToLowerCamel (ToLowerCamel ''message_start'') = ToLowerCamel ''message_start''"
proof -
  have key: "settled (ToCamel ''message_start'') \<and> \<not> startsWith isLow (ToCamel ''message_start'')"
    by code_simp
  have wire: "settled (ToLowerCamel ''message_start'') \<and>
      \<not> startsWith isCap (ToLowerCamel ''message_start'')"
    by code_simp
  from key wire normalization_idempotent_when_settled [of "''message_start''"] show ?thesis
    by blast
qed

end
